theory Spec2Isabelle
  imports Main "HOL-Library.Word"
begin

section \<open>Data model of the service layer\<close>

text \<open>
  Block numbers and the per-query block limit are Go \<open>uint64\<close> values: addition,
  subtraction and multiplication wrap modulo \<open>2 ^ 64\<close>, division is unsigned.
\<close>

type_synonym uint64 = "64 word"

text \<open>A Go \<open>error\<close> value is carried by the text its \<open>Error()\<close> method returns.\<close>

type_synonym go_error = string

text \<open>
  Package \<open>context\<close> of the Go standard library, as far as the service uses it.
  \<open>context.Background()\<close> is the empty root context: it is never cancelled, has no
  deadline and carries no values. A context that can be cancelled is derived from a
  parent with \<open>context.WithCancel\<close>.
\<close>

datatype go_context = Background | TODO | WithCancel go_context

fun cancellable :: "go_context \<Rightarrow> bool" where
  "cancellable Background = False"
| "cancellable TODO = False"
| "cancellable (WithCancel parent) = True"

text \<open>
  \<open>ethclient.Client\<close> is the connection to the node. The service calls one method of
  it, \<open>BlockNumber(ctx)\<close>, which returns \<open>(uint64, error)\<close>: the client is modelled by
  the answer the node gives to that call, \<open>Inl\<close> the transport error.
\<close>

datatype ethclient = Client (BlockNumber: "go_context \<Rightarrow> go_error + uint64")

text \<open>The generated contract bindings are opaque handles, identified by an address.\<close>

datatype CoreGoerli = CoreGoerli nat
datatype SpotMarketGoerli = SpotMarketGoerli nat
datatype PerpsMarketGoerli = PerpsMarketGoerli nat

record Service =
  rpcClient :: ethclient
  core :: CoreGoerli
  coreFirstBlock :: uint64
  spotMarket :: SpotMarketGoerli
  spotMarketFirstBlock :: uint64
  perpsMarket :: PerpsMarketGoerli
  perpsMarketFirstBlock :: uint64

text \<open>\<open>bind.FilterOpts\<close>: \<open>End\<close> is a \<open>*uint64\<close>, \<open>nil\<close> (here \<open>None\<close>) for "to latest".\<close>

record FilterOpts =
  Start :: uint64
  End :: "uint64 option"
  Context :: go_context

text \<open>
  Modelled from the spec: package \<open>errors\<close> of the repository is not part of the
  sources at hand. The error taxonomy has \<open>RPCProviderError{operation, cause}\<close> for a
  transport or node failure and \<open>DecodeError{kind, logIndex}\<close> for a malformed log
  payload; \<open>GetRPCProviderErr\<close> builds the former from the cause and the name of the
  failed operation.
\<close>

datatype perps_error =
    RPCProviderError (operation: string) (cause: go_error)
  | DecodeError string nat

definition GetRPCProviderErr :: "go_error \<Rightarrow> string \<Rightarrow> perps_error" where
  "GetRPCProviderErr err op = RPCProviderError op err"

text \<open>
  A line written through \<open>logger.Log().WithField("layer", l).Errorf(...)\<close>: the layer
  and the formatted message.
\<close>

datatype log_entry = Errorf (layer: string) (message: string)

section \<open>The operations\<close>

text \<open>
  \<open>getIterationsForLimitQuery\<close> returns the Go triple \<open>(iterations, lastBlock, err)\<close>,
  with \<open>None\<close> for a \<open>nil\<close> error, together with the lines it logged.
\<close>

definition getIterationsForLimitQuery ::
  "Service \<Rightarrow> uint64 \<Rightarrow> (uint64 \<times> uint64 \<times> perps_error option) \<times> log_entry list" where
  "getIterationsForLimitQuery s limit =
     (case BlockNumber (rpcClient s) Background of
        Inl err \<Rightarrow>
          ((0, 0, Some (GetRPCProviderErr err ''BlockNumber'')),
           [Errorf ''Service-getIterationsForLimitQuery''
                   (''get latest block rpc error: '' @ err)])
      | Inr lastBlock \<Rightarrow>
          (let limit = (if limit = 0 then 20000 else limit);
               iterations = (lastBlock - perpsMarketFirstBlock s) div limit + 1
           in ((iterations, lastBlock, None), [])))"

definition getFilterOptsPerpsMarket :: "Service \<Rightarrow> uint64 \<Rightarrow> uint64 option \<Rightarrow> FilterOpts" where
  "getFilterOptsPerpsMarket s fromBlock toBLock =
     (let fromBlock = (if fromBlock = 0 then perpsMarketFirstBlock s else fromBlock)
      in \<lparr>Start = fromBlock, End = toBLock, Context = Background\<rparr>)"

text \<open>
  Modelled from the spec: the loop that walks the chunks lives in the retrieval
  functions of the repository, which are not part of the sources at hand. The spec
  gives the block range of chunk \<open>i\<close> as \<open>chunkStart = from + i * limit\<close> and
  \<open>chunkEnd = min(chunkStart + limit - 1, chainHead)\<close>, on \<open>uint64\<close> values.
\<close>

definition chunkStart :: "uint64 \<Rightarrow> uint64 \<Rightarrow> uint64 \<Rightarrow> uint64" where
  "chunkStart from limit i = from + i * limit"

definition chunkEnd :: "uint64 \<Rightarrow> uint64 \<Rightarrow> uint64 \<Rightarrow> uint64 \<Rightarrow> uint64" where
  "chunkEnd from limit chainHead i = min (chunkStart from limit i + limit - 1) chainHead"

text \<open>
  A service for the worked examples: the perps market was deployed at block \<open>fb\<close> and
  the node answers \<open>ans\<close> to every chain-head read.
\<close>

definition exampleService :: "uint64 \<Rightarrow> (go_error + uint64) \<Rightarrow> Service" where
  "exampleService fb ans =
     \<lparr>rpcClient = Client (\<lambda>_. ans),
      core = CoreGoerli 1, coreFirstBlock = 7,
      spotMarket = SpotMarketGoerli 2, spotMarketFirstBlock = 8,
      perpsMarket = PerpsMarketGoerli 3, perpsMarketFirstBlock = fb\<rparr>"

section \<open>The two outcomes of the chain-head read\<close>

lemma getIterations_success:
  "BlockNumber (rpcClient s) Background = Inr lastBlock \<Longrightarrow>
   getIterationsForLimitQuery s limit =
     (((lastBlock - perpsMarketFirstBlock s) div (if limit = 0 then 20000 else limit) + 1,
       lastBlock, None), [])"
  by (simp add: getIterationsForLimitQuery_def Let_def)

lemma getIterations_failure:
  "BlockNumber (rpcClient s) Background = Inl e \<Longrightarrow>
   getIterationsForLimitQuery s limit =
     ((0, 0, Some (GetRPCProviderErr e ''BlockNumber'')),
      [Errorf ''Service-getIterationsForLimitQuery'' (''get latest block rpc error: '' @ e)])"
  by (simp add: getIterationsForLimitQuery_def)

section \<open>Reading \<open>uint64\<close> arithmetic as natural numbers\<close>

lemma unat_lt64: "unat (x :: uint64) < 2 ^ 64"
  using unsigned_less [of x, where ?'a = nat] by simp

lemma unat_max64: "unat (x :: uint64) = 18446744073709551615 \<Longrightarrow> x = 18446744073709551615"
proof -
  assume a: "unat x = 18446744073709551615"
  have "x = word_of_nat (unat x)" by simp
  also have "\<dots> = word_of_nat 18446744073709551615" by (simp only: a)
  also have "\<dots> = 18446744073709551615" by simp
  finally show ?thesis .
qed

lemma unat_sub_wrap64:
  "unat (a - b :: uint64) = (2 ^ 64 + unat a - unat b) mod 2 ^ 64"
proof (cases "unat b \<le> unat a")
  case True
  have "unat a < 2 ^ 64" by (rule unat_lt64)
  then have "(2 ^ 64 + unat a - unat b) mod 2 ^ 64 = unat a - unat b"
    using True by (simp add: mod_if)
  with True show ?thesis by (simp add: unat_sub_if')
next
  case False
  have "unat b < 2 ^ 64" by (rule unat_lt64)
  with False have "(2 ^ 64 + unat a - unat b) mod 2 ^ 64 = 2 ^ 64 + unat a - unat b"
    by simp
  with False show ?thesis by (simp add: unat_sub_if')
qed

lemma unat_count64:
  "unat (x div l + 1 :: uint64) = (unat x div unat l + 1) mod 2 ^ 64"
proof -
  have "unat (x div l + 1) = (unat (x div l) + unat (1 :: uint64)) mod 2 ^ LENGTH(64)"
    by (rule unat_word_ariths(1))
  then show ?thesis by (simp add: unat_div)
qed

lemma count_zero_iff:
  fixes x l :: uint64
  assumes "l \<noteq> 0"
  shows "x div l + 1 = 0 \<longleftrightarrow> l = 1 \<and> x = 18446744073709551615"
proof
  assume z: "x div l + 1 = 0"
  have xb: "unat x < 2 ^ 64" by (rule unat_lt64)
  have lpos: "0 < unat l" using assms by (simp add: unat_gt_0)
  have "unat (x div l + 1) = 0" using z by simp
  then have "(unat x div unat l + 1) mod 2 ^ 64 = 0" by (simp only: unat_count64)
  moreover have "unat x div unat l + 1 \<le> 2 ^ 64"
    using xb div_le_dividend [of "unat x" "unat l"] by linarith
  ultimately have q: "unat x div unat l + 1 = 2 ^ 64"
    by (metis Suc_eq_plus1 le_neq_implies_less mod_less nat.simps(3))
  have l1: "unat l = 1"
  proof (rule ccontr)
    assume "unat l \<noteq> 1"
    with lpos have "2 \<le> unat l" by simp
    then have "unat x div unat l \<le> unat x div 2" by (simp add: div_le_mono2)
    with xb q show False by simp
  qed
  with q have "unat x = 18446744073709551615" by simp
  then have "x = 18446744073709551615" by (rule unat_max64)
  moreover from l1 have "l = 1" by (metis unat_1 word_unat_eq_iff)
  ultimately show "l = 1 \<and> x = 18446744073709551615" by simp
next
  assume "l = 1 \<and> x = 18446744073709551615"
  then show "x div l + 1 = 0" by simp
qed

lemma unat_min64: "unat (min a b :: uint64) = min (unat a) (unat b)"
  by (simp add: min_def word_le_nat_alt)

subsection \<open>Arithmetic of the chunk plan\<close>

lemma chunk_index_bound:
  fixes d L i :: nat
  assumes "i < d div L + 1"
  shows "i * L \<le> d"
proof -
  from assms have "i \<le> d div L" by simp
  then have "i * L \<le> d div L * L" by (rule mult_le_mono1)
  also have "\<dots> \<le> d" by simp
  finally show ?thesis .
qed

lemma last_chunk_reaches:
  fixes d L :: nat
  assumes "0 < L"
  shows "d < (d div L + 1) * L"
  using dividend_less_div_times [OF assms, of d] by (simp add: algebra_simps)

lemma index_of_block:
  fixes b d L :: nat
  assumes "0 < L" and "b \<le> d"
  shows "b div L < d div L + 1" and "b div L * L \<le> b" and "b < b div L * L + L"
proof -
  from assms(2) have "b div L \<le> d div L" by (rule div_le_mono)
  then show "b div L < d div L + 1" by simp
  show "b div L * L \<le> b" by simp
  from last_chunk_reaches [OF assms(1), of b] show "b < b div L * L + L"
    by (simp add: algebra_simps)
qed

subsection \<open>The chunk bounds as natural numbers\<close>

lemma unat_chunkStart:
  fixes fb ch l i :: uint64
  assumes ord: "fb \<le> ch" and idx: "unat i * unat l \<le> unat ch - unat fb"
  shows "unat (chunkStart fb l i) = unat fb + unat i * unat l"
proof -
  have le: "unat fb \<le> unat ch" using ord by (simp add: word_le_nat_alt)
  have ch: "unat ch < 2 ^ 64" by (rule unat_lt64)
  from idx le ch have "unat i * unat l < 2 ^ LENGTH(64)" by simp
  then have m: "unat (i * l) = unat i * unat l" by (simp only: unat_mult_lem)
  from idx le ch have "unat fb + unat (i * l) < 2 ^ LENGTH(64)" by (simp add: m)
  then have "unat (fb + i * l) = unat fb + unat (i * l)" by (simp only: unat_add_lem)
  with m show ?thesis by (simp add: chunkStart_def)
qed

lemma unat_chunkEnd:
  fixes fb ch l i :: uint64
  assumes l0: "l \<noteq> 0" and fits: "unat (chunkStart fb l i) + unat l \<le> 2 ^ 64"
  shows "unat (chunkEnd fb l ch i) = min (unat (chunkStart fb l i) + unat l - 1) (unat ch)"
proof -
  have lpos: "0 < unat l" using l0 by (simp add: unat_gt_0)
  have l1: "unat (l - 1) = unat l - 1" using l0 by (rule unat_minus_one)
  have "unat (chunkStart fb l i) + unat (l - 1) < 2 ^ LENGTH(64)"
    using fits lpos by (simp add: l1)
  then have s: "unat (chunkStart fb l i + (l - 1)) = unat (chunkStart fb l i) + unat (l - 1)"
    by (simp only: unat_add_lem)
  have eq: "chunkStart fb l i + l - 1 = chunkStart fb l i + (l - 1)" by simp
  have "unat (chunkStart fb l i + l - 1) = unat (chunkStart fb l i + (l - 1))"
    by (simp only: eq)
  also have "\<dots> = unat (chunkStart fb l i) + unat (l - 1)" by (rule s)
  also have "\<dots> = unat (chunkStart fb l i) + unat l - 1" using lpos l1 by simp
  finally have "unat (chunkStart fb l i + l - 1) = unat (chunkStart fb l i) + unat l - 1" .
  then show ?thesis by (simp add: chunkEnd_def unat_min64)
qed

text \<open>
  None of the chunk computations wraps when the chain head is more than \<open>limit\<close> blocks
  below \<open>2 ^ 64\<close>.
\<close>

lemma chunk_plan_fits:
  fixes fb ch l :: uint64
  assumes ord: "fb \<le> ch" and lim: "0 < l" and far: "unat ch + unat l < 2 ^ 64"
  shows "(unat ch - unat fb) div unat l + 1 < 2 ^ 64"
    and "unat fb + ((unat ch - unat fb) div unat l + 1) * unat l \<le> 2 ^ 64"
proof -
  let ?d = "unat ch - unat fb"
  have le: "unat fb \<le> unat ch" using ord by (simp add: word_le_nat_alt)
  have lpos: "0 < unat l" using lim by (simp add: word_less_nat_alt)
  have "?d div unat l \<le> ?d" by (rule div_le_dividend)
  with le lpos far show "?d div unat l + 1 < 2 ^ 64" by linarith
  have "(?d div unat l + 1) * unat l = ?d div unat l * unat l + unat l"
    by (simp add: algebra_simps)
  moreover have "?d div unat l * unat l \<le> ?d" by simp
  ultimately have "unat fb + (?d div unat l + 1) * unat l \<le> unat ch + unat l"
    using le by linarith
  with far show "unat fb + (?d div unat l + 1) * unat l \<le> 2 ^ 64" by linarith
qed

section \<open>Chunk coverage\<close>

text \<open>
  C1 (as amended). Let the chain-head read succeed with \<open>chainHead\<close>, let the pagination
  floor be \<open>firstBlock \<le> chainHead\<close> and \<open>limit > 0\<close>, and let no \<open>uint64\<close> computation
  wrap: the count \<open>n = floor((chainHead - firstBlock) / limit) + 1\<close> is below \<open>2 ^ 64\<close>
  and the exclusive end of the last chunk, \<open>firstBlock + n * limit\<close>, is at most
  \<open>2 ^ 64\<close>. Then \<open>getIterationsForLimitQuery\<close> returns \<open>iterations = n\<close> with
  \<open>lastBlock = chainHead\<close> and no error, and the chunk ranges
  \<open>[chunkStart i, chunkEnd i]\<close> for \<open>i < iterations\<close> exactly cover
  \<open>[firstBlock, chainHead]\<close>: the first range starts at \<open>firstBlock\<close>, the last one
  ends at \<open>chainHead\<close>, every range is non-empty, each range is followed immediately
  by the next (\<open>chunkStart (i + 1) = chunkEnd i + 1\<close>), no two ranges overlap, and
  the blocks that lie in some range are exactly those of \<open>[firstBlock, chainHead]\<close>.
\<close>

theorem chunk_coverage:
  fixes firstBlock chainHead limit iterations lastBlock :: uint64
  assumes head: "BlockNumber (rpcClient s) Background = Inr chainHead"
    and floor: "perpsMarketFirstBlock s = firstBlock"
    and res: "fst (getIterationsForLimitQuery s limit) = (iterations, lastBlock, err)"
    and lim: "0 < limit"
    and ord: "firstBlock \<le> chainHead"
    and count: "(unat chainHead - unat firstBlock) div unat limit + 1 < 2 ^ 64"
    and fits: "unat firstBlock +
                 ((unat chainHead - unat firstBlock) div unat limit + 1) * unat limit \<le> 2 ^ 64"
  shows "lastBlock = chainHead \<and> err = None \<and>
         unat iterations = (unat chainHead - unat firstBlock) div unat limit + 1 \<and>
         chunkStart firstBlock limit 0 = firstBlock \<and>
         chunkEnd firstBlock limit chainHead (iterations - 1) = chainHead \<and>
         (\<forall>i. i < iterations \<longrightarrow>
              chunkStart firstBlock limit i \<le> chunkEnd firstBlock limit chainHead i) \<and>
         (\<forall>i. i < iterations - 1 \<longrightarrow>
              chunkEnd firstBlock limit chainHead i < chunkStart firstBlock limit (i + 1) \<and>
              chunkStart firstBlock limit (i + 1) = chunkEnd firstBlock limit chainHead i + 1) \<and>
         (\<forall>i j. i < j \<and> j < iterations \<longrightarrow>
              chunkEnd firstBlock limit chainHead i < chunkStart firstBlock limit j) \<and>
         {b. \<exists>i. i < iterations \<and> chunkStart firstBlock limit i \<le> b \<and>
                  b \<le> chunkEnd firstBlock limit chainHead i} = {firstBlock..chainHead}"
proof -
  let ?F = "unat firstBlock" and ?H = "unat chainHead" and ?L = "unat limit"
  let ?d = "?H - ?F"
  let ?n = "?d div ?L + 1"
  let ?S = "\<lambda>i. unat (chunkStart firstBlock limit i)"
  let ?E = "\<lambda>i. unat (chunkEnd firstBlock limit chainHead i)"
  have l0: "limit \<noteq> 0" using lim by (simp add: word_neq_0_conv)
  have lpos: "0 < ?L" using l0 by (simp add: unat_gt_0)
  have le: "?F \<le> ?H" using ord by (simp add: word_le_nat_alt)
  have hb: "?H < 2 ^ 64" by (rule unat_lt64)
  have r: "iterations = (chainHead - firstBlock) div limit + 1"
    and lb: "lastBlock = chainHead" and er: "err = None"
    using res l0 floor by (auto simp add: getIterations_success [OF head])
  have xd: "unat (chainHead - firstBlock) = ?d" using ord by (rule unat_sub)
  have it: "unat iterations = ?n"
    using count by (simp add: r unat_count64 xd)
  have it0: "iterations \<noteq> 0"
  proof
    assume "iterations = 0"
    then have "unat iterations = 0" by simp
    with it show False by simp
  qed
  have itm: "unat (iterations - 1) = ?d div ?L"
    using unat_minus_one [OF it0] it by simp
  have reach: "?H < ?F + ?d div ?L * ?L + ?L"
    using last_chunk_reaches [OF lpos, of ?d] le by (simp add: algebra_simps)
  have start: "?S i = ?F + unat i * ?L" if "unat i < ?n" for i
    using ord chunk_index_bound [OF that] by (rule unat_chunkStart)
  have room: "?F + unat i * ?L + ?L \<le> 2 ^ 64" if "unat i < ?n" for i
  proof -
    from that have "unat i + 1 \<le> ?n" by simp
    then have a: "(unat i + 1) * ?L \<le> ?n * ?L" by (rule mult_le_mono1)
    have "?F + unat i * ?L + ?L = ?F + (unat i + 1) * ?L" by (simp add: algebra_simps)
    also have "\<dots> \<le> ?F + ?n * ?L" using a by (rule add_left_mono)
    also have "\<dots> \<le> 2 ^ 64" by (rule fits)
    finally show ?thesis .
  qed
  have "end": "?E i = min (?F + unat i * ?L + ?L - 1) ?H" if "unat i < ?n" for i
    using unat_chunkEnd [OF l0, of firstBlock i chainHead] room [OF that] start [OF that]
    by simp
  have inner: "?F + unat i * ?L + ?L \<le> ?H" if "unat i + 1 < ?n" for i
    using chunk_index_bound [OF that] le by (simp add: algebra_simps)
  have c1: "chunkStart firstBlock limit 0 = firstBlock"
    by (simp add: chunkStart_def)
  have c2: "chunkEnd firstBlock limit chainHead (iterations - 1) = chainHead"
  proof -
    have "unat (iterations - 1) < ?n" using itm by simp
    from "end" [OF this] have "?E (iterations - 1) = min (?F + ?d div ?L * ?L + ?L - 1) ?H"
      by (simp only: itm)
    also have "\<dots> = ?H" using reach by simp
    finally show ?thesis by (simp only: word_unat_eq_iff)
  qed
  have c3: "chunkStart firstBlock limit i \<le> chunkEnd firstBlock limit chainHead i"
    if "i < iterations" for i
  proof -
    from that have b: "unat i < ?n" by (simp add: word_less_nat_alt it)
    have "?F + unat i * ?L \<le> ?H" using chunk_index_bound [OF b] le by simp
    then have "?S i \<le> ?E i" using lpos by (simp add: start [OF b] "end" [OF b])
    then show ?thesis by (simp only: word_le_nat_alt)
  qed
  have c4: "chunkEnd firstBlock limit chainHead i < chunkStart firstBlock limit (i + 1) \<and>
            chunkStart firstBlock limit (i + 1) = chunkEnd firstBlock limit chainHead i + 1"
    if "i < iterations - 1" for i
  proof -
    from that have b1: "unat i + 1 < ?n" by (simp add: word_less_nat_alt itm)
    then have b: "unat i < ?n" by simp
    have "unat i + unat (1 :: uint64) < 2 ^ LENGTH(64)" using b1 count by simp
    then have "unat (i + 1) = unat i + unat (1 :: uint64)" by (simp only: unat_add_lem)
    then have i1: "unat (i + 1) = unat i + 1" by simp
    have b': "unat (i + 1) < ?n" using b1 by (simp only: i1)
    have e: "?E i = ?F + unat i * ?L + ?L - 1"
      using inner [OF b1] by (simp add: "end" [OF b])
    have s: "?S (i + 1) = ?F + unat i * ?L + ?L"
      by (simp add: start [OF b'] i1)
    have "?E i + unat (1 :: uint64) < 2 ^ LENGTH(64)"
      using inner [OF b1] hb lpos by (simp add: e)
    then have "unat (chunkEnd firstBlock limit chainHead i + 1) = ?E i + unat (1 :: uint64)"
      by (simp only: unat_add_lem)
    then have "unat (chunkEnd firstBlock limit chainHead i + 1) = ?S (i + 1)"
      using lpos by (simp add: e s)
    then have "chunkStart firstBlock limit (i + 1) = chunkEnd firstBlock limit chainHead i + 1"
      by (simp only: word_unat_eq_iff)
    moreover have "?E i < ?S (i + 1)" using lpos by (simp add: e s)
    then have "chunkEnd firstBlock limit chainHead i < chunkStart firstBlock limit (i + 1)"
      by (simp only: word_less_nat_alt)
    ultimately show ?thesis by simp
  qed
  have c5: "chunkEnd firstBlock limit chainHead i < chunkStart firstBlock limit j"
    if "i < j \<and> j < iterations" for i j
  proof -
    from that have bj: "unat j < ?n" and ij: "unat i < unat j"
      by (simp_all add: word_less_nat_alt it)
    then have bi: "unat i < ?n" by simp
    from ij have "unat i + 1 \<le> unat j" by simp
    then have "(unat i + 1) * ?L \<le> unat j * ?L" by (rule mult_le_mono1)
    then have "?F + unat i * ?L + ?L \<le> ?S j" by (simp add: start [OF bj] algebra_simps)
    moreover have "?E i \<le> ?F + unat i * ?L + ?L - 1" by (simp add: "end" [OF bi])
    ultimately have "?E i < ?S j" using lpos by simp
    then show ?thesis by (simp only: word_less_nat_alt)
  qed
  have c6: "{b. \<exists>i. i < iterations \<and> chunkStart firstBlock limit i \<le> b \<and>
                     b \<le> chunkEnd firstBlock limit chainHead i} = {firstBlock..chainHead}"
  proof (rule set_eqI)
    fix b :: uint64
    show "b \<in> {b. \<exists>i. i < iterations \<and> chunkStart firstBlock limit i \<le> b \<and>
                       b \<le> chunkEnd firstBlock limit chainHead i} \<longleftrightarrow>
          b \<in> {firstBlock..chainHead}"
    proof
      assume "b \<in> {b. \<exists>i. i < iterations \<and> chunkStart firstBlock limit i \<le> b \<and>
                         b \<le> chunkEnd firstBlock limit chainHead i}"
      then obtain i where i: "i < iterations"
        and sb: "chunkStart firstBlock limit i \<le> b"
        and be: "b \<le> chunkEnd firstBlock limit chainHead i" by blast
      from i have bi: "unat i < ?n" by (simp add: word_less_nat_alt it)
      from sb have "?S i \<le> unat b" by (simp only: word_le_nat_alt)
      then have "?F \<le> unat b" by (simp add: start [OF bi])
      moreover from be have "unat b \<le> ?E i" by (simp only: word_le_nat_alt)
      then have "unat b \<le> ?H" by (simp add: "end" [OF bi])
      ultimately show "b \<in> {firstBlock..chainHead}" by (simp add: word_le_nat_alt)
    next
      assume "b \<in> {firstBlock..chainHead}"
      then have fb: "?F \<le> unat b" and bh: "unat b \<le> ?H" by (simp_all add: word_le_nat_alt)
      let ?k = "(unat b - ?F) div ?L"
      have kd: "unat b - ?F \<le> ?d" using bh by simp
      note k = index_of_block [OF lpos kd]
      have kn: "?k < ?n" by (rule k(1))
      with count have "?k < 2 ^ LENGTH(64)" by simp
      then have uk: "unat (word_of_nat ?k :: uint64) = ?k" by (simp add: unat_of_nat)
      let ?i = "word_of_nat ?k :: uint64"
      have bi: "unat ?i < ?n" using kn by (simp only: uk)
      have "?i < iterations" using kn by (simp only: word_less_nat_alt uk it)
      moreover have "?S ?i \<le> unat b" using k(2) fb by (simp only: start [OF bi] uk)
      then have "chunkStart firstBlock limit ?i \<le> b" by (simp only: word_le_nat_alt)
      moreover have "unat b \<le> ?F + ?k * ?L + ?L - 1" using k(3) fb by simp
      then have "unat b \<le> ?E ?i" using bh by (simp only: "end" [OF bi] uk)
      then have "b \<le> chunkEnd firstBlock limit chainHead ?i" by (simp only: word_le_nat_alt)
      ultimately show "b \<in> {b. \<exists>i. i < iterations \<and> chunkStart firstBlock limit i \<le> b \<and>
                         b \<le> chunkEnd firstBlock limit chainHead i}" by blast
    qed
  qed
  from lb er it c1 c2 c3 c4 c5 c6 show ?thesis by blast
qed

text \<open>
  The end-to-end scenario of the spec: floor 0, chain head 45000, limit 20000 gives three
  chunks that cover \<open>[0, 45000]\<close>.
\<close>

theorem chunk_coverage_witness:
  "fst (getIterationsForLimitQuery (exampleService 0 (Inr 45000)) 20000) = (3, 45000, None) \<and>
   chunkStart 0 20000 0 = 0 \<and>
   chunkEnd 0 20000 45000 (3 - 1) = 45000 \<and>
   {b. \<exists>i. i < 3 \<and> chunkStart 0 20000 i \<le> b \<and> b \<le> chunkEnd 0 20000 45000 i} =
     {0..45000}"
proof -
  let ?s = "exampleService 0 (Inr 45000)"
  have head: "BlockNumber (rpcClient ?s) Background = Inr 45000"
    by (simp add: exampleService_def)
  have floor: "perpsMarketFirstBlock ?s = 0"
    by (simp add: exampleService_def)
  have res: "fst (getIterationsForLimitQuery ?s 20000) = (3, 45000, None)"
    by (simp add: exampleService_def getIterationsForLimitQuery_def)
  have lim: "(0 :: uint64) < 20000" by simp
  have ord: "(0 :: uint64) \<le> 45000" by simp
  have count: "(unat (45000 :: uint64) - unat (0 :: uint64)) div unat (20000 :: uint64) + 1
                 < 2 ^ 64" by simp
  have fits: "unat (0 :: uint64) +
                ((unat (45000 :: uint64) - unat (0 :: uint64)) div unat (20000 :: uint64) + 1) *
                  unat (20000 :: uint64) \<le> 2 ^ 64" by simp
  note cover = chunk_coverage [OF head floor res lim ord count fits]
  from cover have "chunkStart 0 20000 0 = 0"
    and "chunkEnd 0 20000 45000 (3 - 1) = 45000"
    and "{b. \<exists>i. i < 3 \<and> chunkStart 0 20000 i \<le> b \<and> b \<le> chunkEnd 0 20000 45000 i} =
           {0..45000}"
    by blast+
  with res show ?thesis by blast
qed

text \<open>
  The claim as stated fails where \<open>uint64\<close> arithmetic wraps. With floor 0, chain head
  \<open>2 ^ 64 - 1\<close> and limit 1 the count \<open>(2 ^ 64 - 1) / 1 + 1\<close> wraps to 0, so no chunk is
  planned at all. With the same floor and head and limit \<open>2 ^ 63 + 1\<close> the count is 2, but
  the end of the last chunk, \<open>min(2 * (2 ^ 63 + 1) - 1, chainHead)\<close>, wraps to block 1 and
  does not reach the chain head.
\<close>

theorem chunk_coverage_counterexample:
  "fst (getIterationsForLimitQuery (exampleService 0 (Inr 18446744073709551615)) 1) =
     (0, 18446744073709551615, None) \<and>
   fst (getIterationsForLimitQuery (exampleService 0 (Inr 18446744073709551615))
          9223372036854775809) = (2, 18446744073709551615, None) \<and>
   chunkEnd 0 9223372036854775809 18446744073709551615 (2 - 1) = 1 \<and>
   chunkEnd 0 9223372036854775809 18446744073709551615 (2 - 1) \<noteq> 18446744073709551615"
  by (simp add: exampleService_def getIterationsForLimitQuery_def chunkEnd_def chunkStart_def)

section \<open>The iteration count\<close>

text \<open>
  C2 (as amended). When the chain-head read succeeds with \<open>lastBlock\<close>, \<open>limit > 0\<close> and
  \<open>lastBlock\<close> is at least \<open>perpsMarketFirstBlock\<close>, \<open>getIterationsForLimitQuery\<close>
  returns \<open>lastBlock\<close>, no error and
  \<open>iterations = floor((lastBlock - perpsMarketFirstBlock) / limit) + 1\<close>, except in the one
  case \<open>limit = 1\<close>, \<open>perpsMarketFirstBlock = 0\<close>, \<open>lastBlock = 2 ^ 64 - 1\<close>, where that
  number is \<open>2 ^ 64\<close> and does not fit a \<open>uint64\<close>.
\<close>

theorem iterations_formula:
  assumes head: "BlockNumber (rpcClient s) Background = Inr lastBlock"
    and lim: "0 < limit"
    and ord: "perpsMarketFirstBlock s \<le> lastBlock"
    and nowrap: "\<not> (limit = 1 \<and> perpsMarketFirstBlock s = 0 \<and> lastBlock = 18446744073709551615)"
  shows "\<exists>iterations.
           fst (getIterationsForLimitQuery s limit) = (iterations, lastBlock, None) \<and>
           unat iterations =
             (unat lastBlock - unat (perpsMarketFirstBlock s)) div unat limit + 1"
proof -
  let ?x = "lastBlock - perpsMarketFirstBlock s"
  have l0: "limit \<noteq> 0" using lim by (simp add: word_neq_0_conv)
  have res: "fst (getIterationsForLimitQuery s limit) = (?x div limit + 1, lastBlock, None)"
    using l0 by (simp add: getIterations_success [OF head])
  have x: "unat ?x = unat lastBlock - unat (perpsMarketFirstBlock s)"
    using ord by (rule unat_sub)
  have nz: "?x div limit + 1 \<noteq> 0"
  proof
    assume "?x div limit + 1 = 0"
    then have l1: "limit = 1" and xm: "?x = 18446744073709551615"
      by (simp_all add: count_zero_iff [OF l0])
    have "unat lastBlock - unat (perpsMarketFirstBlock s) = 18446744073709551615"
      using x xm by simp
    moreover have "unat lastBlock < 2 ^ 64" by (rule unat_lt64)
    ultimately have "unat lastBlock = 18446744073709551615"
      and "unat (perpsMarketFirstBlock s) = 0" by simp_all
    then have "lastBlock = 18446744073709551615" and "perpsMarketFirstBlock s = 0"
      by (simp_all add: unat_max64 unat_eq_zero)
    with l1 nowrap show False by simp
  qed
  have "unat ?x div unat limit + 1 \<le> 2 ^ 64"
    using unat_lt64 [of ?x] div_le_dividend [of "unat ?x" "unat limit"] by linarith
  moreover have "unat ?x div unat limit + 1 \<noteq> 2 ^ 64"
  proof
    assume "unat ?x div unat limit + 1 = 2 ^ 64"
    then have "unat (?x div limit + 1) = 0" by (simp only: unat_count64) simp
    then show False using nz by (simp add: unat_eq_zero)
  qed
  ultimately have "unat ?x div unat limit + 1 < 2 ^ 64" by linarith
  then have "unat (?x div limit + 1) = unat ?x div unat limit + 1"
    by (simp only: unat_count64) simp
  with res x show ?thesis by simp
qed

text \<open>
  The end-to-end scenario: first block 0, chain head 45000 and limit 20000 give 3
  iterations, with the chunks \<open>[0,19999]\<close>, \<open>[20000,39999]\<close>, \<open>[40000,45000]\<close>.
\<close>

theorem iterations_formula_witness:
  "fst (getIterationsForLimitQuery (exampleService 0 (Inr 45000)) 20000) = (3, 45000, None) \<and>
   map (\<lambda>i. (chunkStart 0 20000 i, chunkEnd 0 20000 45000 i)) [0, 1, 2] =
     [(0, 19999), (20000, 39999), (40000, 45000)]"
  using iterations_formula [of "exampleService 0 (Inr 45000)" 45000 20000]
  by (simp add: exampleService_def getIterationsForLimitQuery_def chunkStart_def chunkEnd_def)

text \<open>
  Without the exception the formula fails: first block 0, chain head \<open>2 ^ 64 - 1\<close> and
  limit 1 satisfy \<open>limit > 0\<close> and \<open>lastBlock \<ge> perpsMarketFirstBlock\<close>, the formula gives
  \<open>2 ^ 64\<close>, and the code returns 0.
\<close>

theorem iterations_formula_counterexample:
  "unat (fst (fst (getIterationsForLimitQuery (exampleService 0 (Inr 18446744073709551615)) 1))) \<noteq>
     (unat (18446744073709551615 :: uint64) - unat (0 :: uint64)) div unat (1 :: uint64) + 1"
  by (simp add: exampleService_def getIterationsForLimitQuery_def)

text \<open>
  C3. The iteration count is anchored to \<open>perpsMarketFirstBlock\<close> alone: changing
  \<open>coreFirstBlock\<close> and \<open>spotMarketFirstBlock\<close> of a service, everything else and the node
  being the same, changes nothing in what \<open>getIterationsForLimitQuery\<close> returns, for
  every limit.
\<close>

theorem pagination_floor_is_perps:
  "getIterationsForLimitQuery (s\<lparr>coreFirstBlock := c, spotMarketFirstBlock := m\<rparr>) limit =
   getIterationsForLimitQuery s limit"
  by (simp add: getIterationsForLimitQuery_def split: sum.splits)

text \<open>
  C4 (as amended). Whenever the chain-head read succeeds, for every limit (0 included) and
  every pair of \<open>uint64\<close> values of the chain head and \<open>perpsMarketFirstBlock\<close>, the
  returned \<open>iterations\<close> is at least 1 exactly when it is not the case that \<open>limit = 1\<close>
  and \<open>lastBlock - perpsMarketFirstBlock = 2 ^ 64 - 1\<close> modulo \<open>2 ^ 64\<close> (there the sum
  wraps to 0). In particular \<open>iterations = 1\<close> when the chain head equals
  \<open>perpsMarketFirstBlock\<close>.
\<close>

theorem iterations_lower_bound:
  assumes head: "BlockNumber (rpcClient s) Background = Inr lastBlock"
    and res: "fst (getIterationsForLimitQuery s limit) = (iterations, lb, err)"
  shows "(1 \<le> iterations \<longleftrightarrow>
            \<not> (limit = 1 \<and> lastBlock - perpsMarketFirstBlock s = 18446744073709551615)) \<and>
         (lastBlock = perpsMarketFirstBlock s \<longrightarrow> iterations = 1)"
proof -
  let ?l = "if limit = 0 then 20000 else limit"
  let ?x = "lastBlock - perpsMarketFirstBlock s"
  have it: "iterations = ?x div ?l + 1"
    using res by (auto simp add: getIterations_success [OF head])
  have l0: "?l \<noteq> 0" by simp
  have "iterations = 0 \<longleftrightarrow> ?l = 1 \<and> ?x = 18446744073709551615"
    unfolding it by (rule count_zero_iff [OF l0])
  moreover have "?l = 1 \<longleftrightarrow> limit = 1" by simp
  moreover have "1 \<le> iterations \<longleftrightarrow> iterations \<noteq> 0"
    by (metis word_le_sub1 word_zero_le word_le_0_iff one_neq_zero)
  ultimately have "1 \<le> iterations \<longleftrightarrow> \<not> (limit = 1 \<and> ?x = 18446744073709551615)"
    by simp
  moreover have "lastBlock = perpsMarketFirstBlock s \<longrightarrow> iterations = 1"
    unfolding it by simp
  ultimately show ?thesis by simp
qed

theorem iterations_lower_bound_witness:
  "BlockNumber (rpcClient (exampleService 100 (Inr 100))) Background = Inr 100 \<and>
   fst (getIterationsForLimitQuery (exampleService 100 (Inr 100)) 0) = (1, 100, None) \<and>
   1 \<le> fst (fst (getIterationsForLimitQuery (exampleService 100 (Inr 100)) 0))"
  using iterations_lower_bound [of "exampleService 100 (Inr 100)" 100 0 1 100 None]
  by (simp add: exampleService_def getIterationsForLimitQuery_def)

text \<open>
  Chain head 0, first block 1 and limit 1: the difference wraps to \<open>2 ^ 64 - 1\<close> and the
  count to 0.
\<close>

theorem iterations_lower_bound_counterexample:
  "\<not> 1 \<le> fst (fst (getIterationsForLimitQuery (exampleService 1 (Inr 0)) 1))"
  by (simp add: exampleService_def getIterationsForLimitQuery_def)

section \<open>Limit normalisation\<close>

text \<open>
  C5. For every service state, whatever the node answers to the chain-head read,
  \<open>getIterationsForLimitQuery 0\<close> and \<open>getIterationsForLimitQuery 20000\<close> return the
  same triple \<open>(iterations, lastBlock, err)\<close> (and log the same lines): a limit of 0 is
  replaced by the default of 20000.
\<close>

theorem limit_zero_is_default:
  "getIterationsForLimitQuery s 0 = getIterationsForLimitQuery s 20000"
  by (simp add: getIterationsForLimitQuery_def split: sum.splits)

section \<open>Filter options\<close>

text \<open>
  C6. For every \<open>toBLock\<close>, \<open>getFilterOptsPerpsMarket 0 toBLock\<close> returns options whose
  \<open>Start\<close> is the service's \<open>perpsMarketFirstBlock\<close>.
\<close>

theorem default_start_block:
  "Start (getFilterOptsPerpsMarket s 0 toBLock) = perpsMarketFirstBlock s"
  by (simp add: getFilterOptsPerpsMarket_def)

text \<open>
  C8. \<open>getFilterOptsPerpsMarket\<close> returns \<open>toBLock\<close> unchanged as \<open>End\<close> (\<open>None\<close>, that
  is \<open>nil\<close>, included); when \<open>fromBlock\<close> is not 0, \<open>Start\<close> is \<open>fromBlock\<close> unchanged;
  and the function is pure: it always returns options (there is no error value in its
  type) and they depend on the service through \<open>perpsMarketFirstBlock\<close> only, so
  nothing the node answers or has answered can change them.
\<close>

theorem filter_opts_frame:
  "End (getFilterOptsPerpsMarket s fromBlock toBLock) = toBLock \<and>
   (fromBlock \<noteq> 0 \<longrightarrow> Start (getFilterOptsPerpsMarket s fromBlock toBLock) = fromBlock) \<and>
   (perpsMarketFirstBlock s' = perpsMarketFirstBlock s \<longrightarrow>
      getFilterOptsPerpsMarket s' fromBlock toBLock = getFilterOptsPerpsMarket s fromBlock toBLock)"
  by (simp add: getFilterOptsPerpsMarket_def)

theorem filter_opts_frame_witness:
  "End (getFilterOptsPerpsMarket (exampleService 10 (Inr 5)) 42 None) = None \<and>
   End (getFilterOptsPerpsMarket (exampleService 10 (Inr 5)) 42 (Some 99)) = Some 99 \<and>
   Start (getFilterOptsPerpsMarket (exampleService 10 (Inr 5)) 42 None) = 42 \<and>
   getFilterOptsPerpsMarket (exampleService 10 (Inl ''down'')) 42 (Some 99) =
     getFilterOptsPerpsMarket (exampleService 10 (Inr 5)) 42 (Some 99)"
  using filter_opts_frame [of "exampleService 10 (Inr 5)" 42 None "exampleService 10 (Inl ''down'')"]
        filter_opts_frame [of "exampleService 10 (Inr 5)" 42 "Some 99" "exampleService 10 (Inl ''down'')"]
  by (simp add: exampleService_def)

text \<open>
  C9 (as amended). For every \<open>fromBlock\<close> and \<open>toBLock\<close>, the context attached by
  \<open>getFilterOptsPerpsMarket\<close> is \<open>context.Background()\<close>: a fixed root context, the same
  for every call, that is not cancellable; the caller of the service passes no context in
  and holds no cancel function for it.
\<close>

theorem filter_context_is_background:
  "Context (getFilterOptsPerpsMarket s fromBlock toBLock) = Background \<and>
   \<not> cancellable (Context (getFilterOptsPerpsMarket s fromBlock toBLock))"
  by (simp add: getFilterOptsPerpsMarket_def)

text \<open>The claim as stated fails at any call, for instance with \<open>fromBlock = 0\<close> and no end.\<close>

theorem filter_context_counterexample:
  "Context (getFilterOptsPerpsMarket (exampleService 10 (Inr 5)) 0 None) = Background \<and>
   \<not> cancellable (Context (getFilterOptsPerpsMarket (exampleService 10 (Inr 5)) 0 None))"
  by (simp add: getFilterOptsPerpsMarket_def)

section \<open>Failure of the chain-head read\<close>

text \<open>
  C7. If the \<open>BlockNumber\<close> read fails with cause \<open>e\<close>, \<open>getIterationsForLimitQuery\<close>
  returns the \<open>RPCProviderError\<close> with operation \<open>"BlockNumber"\<close> and cause \<open>e\<close>, with 0
  for both \<open>iterations\<close> and \<open>lastBlock\<close>, whatever the limit and the first blocks are;
  the only other thing it does is log the error.
\<close>

theorem head_read_failure:
  assumes "BlockNumber (rpcClient s) Background = Inl e"
  shows "getIterationsForLimitQuery s limit =
           ((0, 0, Some (RPCProviderError ''BlockNumber'' e)),
            [Errorf ''Service-getIterationsForLimitQuery''
                    (''get latest block rpc error: '' @ e)])"
  using assms by (simp add: getIterations_failure GetRPCProviderErr_def)

theorem head_read_failure_witness:
  "getIterationsForLimitQuery (exampleService 10 (Inl ''connection refused'')) 500 =
     ((0, 0, Some (RPCProviderError ''BlockNumber'' ''connection refused'')),
      [Errorf ''Service-getIterationsForLimitQuery''
              ''get latest block rpc error: connection refused''])"
  using head_read_failure [of "exampleService 10 (Inl ''connection refused'')" "''connection refused''" 500]
  by (simp add: exampleService_def)

section \<open>A chain head below the pagination floor\<close>

text \<open>
  C10. There is no guard for a chain head below \<open>perpsMarketFirstBlock\<close>: for every
  successful read with \<open>lastBlock < perpsMarketFirstBlock\<close> the call succeeds, returns
  \<open>lastBlock\<close>, and the count is
  \<open>(((lastBlock - perpsMarketFirstBlock) mod 2 ^ 64) div limit + 1) mod 2 ^ 64\<close>, the
  limit being the one the division uses (20000 when 0 was passed).
\<close>

theorem head_below_floor_wraps:
  assumes head: "BlockNumber (rpcClient s) Background = Inr lastBlock"
    and below: "lastBlock < perpsMarketFirstBlock s"
  shows "\<exists>iterations.
           fst (getIterationsForLimitQuery s limit) = (iterations, lastBlock, None) \<and>
           unat iterations =
             (((2 ^ 64 + unat lastBlock - unat (perpsMarketFirstBlock s)) mod 2 ^ 64)
                div unat (if limit = 0 then 20000 else limit) + 1) mod 2 ^ 64"
  by (simp add: getIterations_success [OF head] unat_count64 unat_sub_wrap64)

text \<open>
  Chain head 5 below first block 10: the difference is \<open>2 ^ 64 - 5\<close>, not 0, and the count
  is \<open>(2 ^ 64 - 5) div 20000 + 1\<close>.
\<close>

theorem head_below_floor_wraps_witness:
  "fst (getIterationsForLimitQuery (exampleService 10 (Inr 5)) 20000) = (922337203685478, 5, None)"
  using head_below_floor_wraps [of "exampleService 10 (Inr 5)" 5 20000]
  by (simp add: exampleService_def getIterationsForLimitQuery_def)

end
